theory Spec2Isabelle
  imports Main
begin

section \<open>Remember-me tokens: the model\<close>

text \<open>
  The module \<^verbatim>\<open>models/RememberToken.js\<close> keeps one table, \<^verbatim>\<open>remember_tokens\<close>, in a
  MariaDB database and exports \<^verbatim>\<open>createToken\<close>, \<^verbatim>\<open>validateToken\<close>, \<^verbatim>\<open>deleteToken\<close> and
  \<^verbatim>\<open>initializeTable\<close>. Each function takes one connection from the pool, issues its
  statements on it and releases it.

  The embedding makes explicit everything these functions read from their environment:
  \<^item> the table is a list of rows, in insertion order;
  \<^item> every call to the storage layer may be rejected: a predicate on calls says which ones
    fail, and a rejected call changes nothing and raises;
  \<^item> the host clock (\<^verbatim>\<open>new Date()\<close>) and the database clock (\<^verbatim>\<open>NOW()\<close>) are arguments, both
    instants in milliseconds since the epoch;
  \<^item> the value drawn by \<^verbatim>\<open>generateToken()\<close> is an argument;
  \<^item> the host's time zone, which \<^verbatim>\<open>Date.prototype.setDate\<close> consults, is an argument.

  What is left out: the surrogate \<^verbatim>\<open>id\<close> column (never read by the program), column
  widths, the collation of string comparison (tokens and user ids are compared exactly),
  the precision at which a \<^verbatim>\<open>DATETIME\<close> column keeps an instant and the time zone in which
  it is written (host and database are taken to agree), the range of valid \<^verbatim>\<open>Date\<close>
  values, values of \<^verbatim>\<open>rememberDays\<close> that are not integers, and other connections working
  on the table at the same time.
\<close>

subsection \<open>Data\<close>

datatype provider = Google | Facebook | Microsoft

text \<open>
  The user object built by the three passport strategies:
  \<^verbatim>\<open>{ id, provider, name, email, photo }\<close>, where the Facebook and Microsoft strategies
  may set \<^verbatim>\<open>email\<close> and \<^verbatim>\<open>photo\<close> to \<^verbatim>\<open>null\<close>. \<^verbatim>\<open>validateToken\<close> returns an object of the
  same shape.
\<close>

record user =
  user_id :: string
  user_provider :: provider
  user_name :: string
  user_email :: "string option"
  user_photo :: "string option"

text \<open>A row of \<^verbatim>\<open>remember_tokens\<close>; only \<^verbatim>\<open>userPhoto\<close> is nullable.\<close>

record row =
  token :: string
  userId :: string
  provider :: provider
  userEmail :: string
  userName :: string
  userPhoto :: "string option"
  expiresAt :: int
  createdAt :: int
  lastUsed :: int

subsection \<open>The storage layer\<close>

datatype call =
    GetConnection | BeginTransaction | Commit | Rollback
  | DeleteForUser | InsertToken
  | SelectToken | DeleteExpired | UpdateLastUsed
  | DeleteToken
  | CreateTable | SweepExpired
  | SelectOne

datatype error = Failed call | NullColumn | DuplicateEntry

type_synonym faults = "call \<Rightarrow> bool"

text \<open>
  A connection: the table as this connection sees it, the table as it was when the open
  transaction began (if one is open), and the calls issued so far, oldest first.
\<close>

record conn =
  tbl :: "row list"
  undo :: "row list option"
  issued :: "call list"

definition issue :: "call \<Rightarrow> conn \<Rightarrow> conn" where
  "issue k c = c\<lparr>issued := issued c @ [k]\<rparr>"

definition getConnection :: "faults \<Rightarrow> row list \<Rightarrow> (error + unit) \<times> conn" where
  "getConnection f db =
     (let c = \<lparr>tbl = db, undo = None, issued = [GetConnection]\<rparr>
      in if f GetConnection then (Inl (Failed GetConnection), c) else (Inr (), c))"

definition beginTransaction :: "faults \<Rightarrow> conn \<Rightarrow> (error + unit) \<times> conn" where
  "beginTransaction f c =
     (let c' = issue BeginTransaction c
      in if f BeginTransaction then (Inl (Failed BeginTransaction), c')
         else (Inr (), c'\<lparr>undo := Some (tbl c')\<rparr>))"

definition commit :: "faults \<Rightarrow> conn \<Rightarrow> (error + unit) \<times> conn" where
  "commit f c =
     (let c' = issue Commit c
      in if f Commit then (Inl (Failed Commit), c')
         else (Inr (), c'\<lparr>undo := None\<rparr>))"

text \<open>Undoing the open transaction, if there is one.\<close>

definition restore :: "conn \<Rightarrow> conn" where
  "restore c = (case undo c of None \<Rightarrow> c | Some old \<Rightarrow> c\<lparr>tbl := old, undo := None\<rparr>)"

definition rollback :: "faults \<Rightarrow> conn \<Rightarrow> (error + unit) \<times> conn" where
  "rollback f c =
     (let c' = issue Rollback c
      in if f Rollback then (Inl (Failed Rollback), c')
         else (Inr (), restore c'))"

text \<open>
  \<^verbatim>\<open>conn.release()\<close>: the pool rolls back whatever transaction is still open on a connection
  that is given back (and the server does so for a connection that is lost).
\<close>

definition release :: "conn \<Rightarrow> conn" where
  "release c = restore c"

text \<open>
  \<^verbatim>\<open>conn.query(sql, params)\<close>: the statement is a function from the table to an error or to
  its result and the new table. A statement that fails leaves the table as it was.
\<close>

definition query ::
  "faults \<Rightarrow> call \<Rightarrow> (row list \<Rightarrow> error + 'a \<times> row list) \<Rightarrow> conn \<Rightarrow> (error + 'a) \<times> conn" where
  "query f k stmt c =
     (let c' = issue k c
      in if f k then (Inl (Failed k), c')
         else (case stmt (tbl c') of
                 Inl e \<Rightarrow> (Inl e, c')
               | Inr (v, rs) \<Rightarrow> (Inr v, c'\<lparr>tbl := rs\<rparr>)))"

subsection \<open>The statements\<close>

text \<open>\<^verbatim>\<open>DELETE FROM remember_tokens WHERE userId = ? AND provider = ?\<close>; the result is
  \<^verbatim>\<open>affectedRows\<close>.\<close>

definition sql_delete_for_user :: "string \<Rightarrow> provider \<Rightarrow> row list \<Rightarrow> error + nat \<times> row list" where
  "sql_delete_for_user uid prov rs =
     Inr (length (filter (\<lambda>r. userId r = uid \<and> provider r = prov) rs),
          filter (\<lambda>r. \<not> (userId r = uid \<and> provider r = prov)) rs)"

text \<open>
  \<^verbatim>\<open>INSERT INTO remember_tokens (token, userId, provider, userEmail, userName, userPhoto,
  expiresAt, createdAt, lastUsed) VALUES (?, ?, ?, ?, ?, ?, ?, NOW(), NOW())\<close>.
  \<^verbatim>\<open>userEmail\<close> is \<^verbatim>\<open>NOT NULL\<close> and \<^verbatim>\<open>token\<close> is \<^verbatim>\<open>UNIQUE\<close>.
\<close>

definition sql_insert ::
  "string \<Rightarrow> string \<Rightarrow> provider \<Rightarrow> string option \<Rightarrow> string \<Rightarrow> string option \<Rightarrow> int \<Rightarrow> int
     \<Rightarrow> row list \<Rightarrow> error + nat \<times> row list" where
  "sql_insert tok uid prov email nm photo expires dbnow rs =
     (case email of
        None \<Rightarrow> Inl NullColumn
      | Some em \<Rightarrow>
          if tok \<in> set (map token rs) then Inl DuplicateEntry
          else Inr (1, rs @ [\<lparr>token = tok, userId = uid, provider = prov, userEmail = em,
                              userName = nm, userPhoto = photo, expiresAt = expires,
                              createdAt = dbnow, lastUsed = dbnow\<rparr>]))"

text \<open>\<^verbatim>\<open>SELECT * FROM remember_tokens WHERE token = ?\<close>\<close>

definition sql_select_token :: "string \<Rightarrow> row list \<Rightarrow> error + row list \<times> row list" where
  "sql_select_token tok rs = Inr (filter (\<lambda>r. token r = tok) rs, rs)"

text \<open>\<^verbatim>\<open>DELETE FROM remember_tokens WHERE token = ?\<close>\<close>

definition sql_delete_token :: "string \<Rightarrow> row list \<Rightarrow> error + nat \<times> row list" where
  "sql_delete_token tok rs =
     Inr (length (filter (\<lambda>r. token r = tok) rs), filter (\<lambda>r. token r \<noteq> tok) rs)"

text \<open>\<^verbatim>\<open>UPDATE remember_tokens SET lastUsed = NOW() WHERE token = ?\<close>\<close>

definition sql_update_lastUsed :: "string \<Rightarrow> int \<Rightarrow> row list \<Rightarrow> error + nat \<times> row list" where
  "sql_update_lastUsed tok dbnow rs =
     Inr (length (filter (\<lambda>r. token r = tok) rs),
          map (\<lambda>r. if token r = tok then r\<lparr>lastUsed := dbnow\<rparr> else r) rs)"

text \<open>\<^verbatim>\<open>CREATE TABLE IF NOT EXISTS remember_tokens (...)\<close>: nothing happens to a table that
  exists; a missing table is created empty, which the model does not tell apart from an
  empty table.\<close>

definition sql_create_table :: "row list \<Rightarrow> error + unit \<times> row list" where
  "sql_create_table rs = Inr ((), rs)"

text \<open>\<^verbatim>\<open>DELETE FROM remember_tokens WHERE expiresAt < NOW()\<close>\<close>

definition sql_delete_expired :: "int \<Rightarrow> row list \<Rightarrow> error + nat \<times> row list" where
  "sql_delete_expired dbnow rs =
     Inr (length (filter (\<lambda>r. expiresAt r < dbnow) rs),
          filter (\<lambda>r. \<not> expiresAt r < dbnow) rs)"

text \<open>\<^verbatim>\<open>SELECT 1\<close>\<close>

definition sql_select_one :: "row list \<Rightarrow> error + unit \<times> row list" where
  "sql_select_one rs = Inr ((), rs)"

subsection \<open>The host's calendar\<close>

text \<open>
  \<^verbatim>\<open>expiresAt.setDate(expiresAt.getDate() + rememberDays)\<close> works on the local-time reading
  of the instant. By the definitions of ECMAScript (\<^verbatim>\<open>LocalTime\<close>, \<^verbatim>\<open>MakeDay\<close>, \<^verbatim>\<open>MakeDate\<close>,
  \<^verbatim>\<open>UTC\<close>), \<^verbatim>\<open>MakeDay(YearFromTime(t), MonthFromTime(t), DateFromTime(t) + n)\<close> is
  \<^verbatim>\<open>Day(t) + n\<close>: the day number moves by \<^verbatim>\<open>n\<close>, the time within the day stays, and the
  result is converted back with the offset in force at the new local time.
  A zone gives the offset of local time from UTC, at an instant and at a local reading.
\<close>

record zone =
  offset_at_utc :: "int \<Rightarrow> int"
  offset_at_local :: "int \<Rightarrow> int"

definition msPerDay :: int where
  "msPerDay = 86400000"

definition Day :: "int \<Rightarrow> int" where
  "Day t = t div msPerDay"

definition TimeWithinDay :: "int \<Rightarrow> int" where
  "TimeWithinDay t = t mod msPerDay"

definition MakeDate :: "int \<Rightarrow> int \<Rightarrow> int" where
  "MakeDate day time = day * msPerDay + time"

definition LocalTime :: "zone \<Rightarrow> int \<Rightarrow> int" where
  "LocalTime z t = t + offset_at_utc z t"

definition UTC :: "zone \<Rightarrow> int \<Rightarrow> int" where
  "UTC z t = t - offset_at_local z t"

definition setDate :: "zone \<Rightarrow> int \<Rightarrow> int \<Rightarrow> int" where
  "setDate z t n =
     (let lt = LocalTime z t
      in UTC z (MakeDate (Day lt + n) (TimeWithinDay lt)))"

subsection \<open>The exported functions\<close>

text \<open>\<^verbatim>\<open>user.photo || null\<close>: the empty string is falsy.\<close>

definition or_null :: "string option \<Rightarrow> string option" where
  "or_null p = (case p of None \<Rightarrow> None | Some s \<Rightarrow> if s = [] then None else Some s)"

text \<open>The \<^verbatim>\<open>try\<close> block of \<^verbatim>\<open>createToken\<close>.\<close>

definition createToken_try ::
  "faults \<Rightarrow> int \<Rightarrow> string \<Rightarrow> user \<Rightarrow> int \<Rightarrow> conn \<Rightarrow> (error + string) \<times> conn" where
  "createToken_try f dbnow tok u expires c0 =
     (case beginTransaction f c0 of
        (Inl e, c1) \<Rightarrow> (Inl e, c1)
      | (Inr _, c1) \<Rightarrow>
     (case query f DeleteForUser (sql_delete_for_user (user_id u) (user_provider u)) c1 of
        (Inl e, c2) \<Rightarrow> (Inl e, c2)
      | (Inr _, c2) \<Rightarrow>
     (case query f InsertToken
             (sql_insert tok (user_id u) (user_provider u) (user_email u) (user_name u)
                (or_null (user_photo u)) expires dbnow) c2 of
        (Inl e, c3) \<Rightarrow> (Inl e, c3)
      | (Inr _, c3) \<Rightarrow>
     (case commit f c3 of
        (Inl e, c4) \<Rightarrow> (Inl e, c4)
      | (Inr _, c4) \<Rightarrow> (Inr tok, c4)))))"

text \<open>
  \<^verbatim>\<open>createToken(user, rememberDays = 30)\<close>. \<^verbatim>\<open>now\<close> is the host clock at \<^verbatim>\<open>new Date()\<close>,
  \<^verbatim>\<open>dbnow\<close> the database clock at the \<^verbatim>\<open>INSERT\<close>, \<^verbatim>\<open>tok\<close> the value of \<^verbatim>\<open>generateToken()\<close>.
  A failure in the \<^verbatim>\<open>try\<close> block is caught, the transaction is rolled back and the error
  is thrown again; if the rollback fails, its error is thrown instead. The connection is
  released in every case.
\<close>

definition createToken ::
  "faults \<Rightarrow> zone \<Rightarrow> int \<Rightarrow> int \<Rightarrow> string \<Rightarrow> user \<Rightarrow> int option \<Rightarrow> row list
     \<Rightarrow> (error + string) \<times> conn" where
  "createToken f z now dbnow tok u rememberDays db =
     (let days = (case rememberDays of None \<Rightarrow> 30 | Some d \<Rightarrow> d);
          expires = setDate z now days
      in case getConnection f db of
           (Inl e, c) \<Rightarrow> (Inl e, c)
         | (Inr _, c0) \<Rightarrow>
             (case createToken_try f dbnow tok u expires c0 of
                (Inr t, c) \<Rightarrow> (Inr t, release c)
              | (Inl e, c) \<Rightarrow>
                  (case rollback f c of
                     (Inl e', c') \<Rightarrow> (Inl e', release c')
                   | (Inr _, c') \<Rightarrow> (Inl e, release c'))))"

text \<open>
  \<^verbatim>\<open>validateToken(token)\<close>; \<^verbatim>\<open>None\<close> is JavaScript's \<^verbatim>\<open>null\<close>. \<^verbatim>\<open>now\<close> is the host clock at
  the comparison, \<^verbatim>\<open>dbnow\<close> the database clock at the \<^verbatim>\<open>UPDATE\<close>. The \<^verbatim>\<open>catch\<close> clause throws
  the error again.
\<close>

definition validateToken ::
  "faults \<Rightarrow> int \<Rightarrow> int \<Rightarrow> string \<Rightarrow> row list \<Rightarrow> (error + user option) \<times> conn" where
  "validateToken f now dbnow tok db =
     (case getConnection f db of
        (Inl e, c) \<Rightarrow> (Inl e, c)
      | (Inr _, c0) \<Rightarrow>
     (case query f SelectToken (sql_select_token tok) c0 of
        (Inl e, c1) \<Rightarrow> (Inl e, release c1)
      | (Inr rows, c1) \<Rightarrow>
     (case rows of
        [] \<Rightarrow> (Inr None, release c1)
      | rememberToken # _ \<Rightarrow>
          if expiresAt rememberToken < now then
            (case query f DeleteExpired (sql_delete_token tok) c1 of
               (Inl e, c2) \<Rightarrow> (Inl e, release c2)
             | (Inr _, c2) \<Rightarrow> (Inr None, release c2))
          else
            (case query f UpdateLastUsed (sql_update_lastUsed tok dbnow) c1 of
               (Inl e, c2) \<Rightarrow> (Inl e, release c2)
             | (Inr _, c2) \<Rightarrow>
                 (Inr (Some \<lparr>user_id = userId rememberToken,
                             user_provider = provider rememberToken,
                             user_name = userName rememberToken,
                             user_email = Some (userEmail rememberToken),
                             user_photo = userPhoto rememberToken\<rparr>),
                  release c2)))))"

text \<open>\<^verbatim>\<open>deleteToken(token)\<close>: \<^verbatim>\<open>result && result.affectedRows > 0\<close>.\<close>

definition deleteToken :: "faults \<Rightarrow> string \<Rightarrow> row list \<Rightarrow> (error + bool) \<times> conn" where
  "deleteToken f tok db =
     (case getConnection f db of
        (Inl e, c) \<Rightarrow> (Inl e, c)
      | (Inr _, c0) \<Rightarrow>
     (case query f DeleteToken (sql_delete_token tok) c0 of
        (Inl e, c1) \<Rightarrow> (Inl e, release c1)
      | (Inr affectedRows, c1) \<Rightarrow> (Inr (affectedRows > 0), release c1)))"

text \<open>\<^verbatim>\<open>initializeTable()\<close>: create the table if it is missing, then sweep.\<close>

definition initializeTable :: "faults \<Rightarrow> int \<Rightarrow> row list \<Rightarrow> (error + unit) \<times> conn" where
  "initializeTable f dbnow db =
     (case getConnection f db of
        (Inl e, c) \<Rightarrow> (Inl e, c)
      | (Inr _, c0) \<Rightarrow>
     (case query f CreateTable sql_create_table c0 of
        (Inl e, c1) \<Rightarrow> (Inl e, release c1)
      | (Inr _, c1) \<Rightarrow>
     (case query f SweepExpired (sql_delete_expired dbnow) c1 of
        (Inl e, c2) \<Rightarrow> (Inl e, release c2)
      | (Inr _, c2) \<Rightarrow> (Inr (), release c2))))"

text \<open>\<^verbatim>\<open>testConnection()\<close> of \<^verbatim>\<open>config/database.js\<close>: any error is caught and reported as
  \<^verbatim>\<open>false\<close>.\<close>

definition testConnection :: "faults \<Rightarrow> row list \<Rightarrow> bool \<times> conn" where
  "testConnection f db =
     (case getConnection f db of
        (Inl e, c) \<Rightarrow> (False, c)
      | (Inr _, c0) \<Rightarrow>
     (case query f SelectOne sql_select_one c0 of
        (Inl e, c1) \<Rightarrow> (False, release c1)
      | (Inr _, c1) \<Rightarrow> (True, release c1)))"

text \<open>
  The start of the server: the sweep runs only when the connection test has succeeded,
  and an error of \<^verbatim>\<open>initializeTable\<close> is logged and dropped. The result is the table the
  server starts with.
\<close>

definition startup :: "faults \<Rightarrow> int \<Rightarrow> row list \<Rightarrow> row list" where
  "startup f dbnow db =
     (case testConnection f db of
        (True, c) \<Rightarrow> tbl (snd (initializeTable f dbnow (tbl c)))
      | (False, c) \<Rightarrow> tbl c)"

text \<open>An environment in which no storage call fails.\<close>

definition reliable :: faults where
  "reliable = (\<lambda>k. False)"

text \<open>The \<^verbatim>\<open>UNIQUE\<close> constraint on \<^verbatim>\<open>token\<close>.\<close>

definition unique_tokens :: "row list \<Rightarrow> bool" where
  "unique_tokens rs = distinct (map token rs)"

subsection \<open>Notions used in the statements\<close>

text \<open>The rows of an identity: \<^verbatim>\<open>(userId, provider)\<close> is the key of a principal.\<close>

definition owned_by :: "user \<Rightarrow> row \<Rightarrow> bool" where
  "owned_by u r \<longleftrightarrow> userId r = user_id u \<and> provider r = user_provider u"

definition others :: "user \<Rightarrow> row list \<Rightarrow> row list" where
  "others u db = filter (\<lambda>r. \<not> owned_by u r) db"

definition one_per_identity :: "row list \<Rightarrow> bool" where
  "one_per_identity db \<longleftrightarrow>
     (\<forall>r \<in> set db. length (filter (\<lambda>x. userId x = userId r \<and> provider x = provider r) db) \<le> 1)"

text \<open>The row that a successful \<^verbatim>\<open>createToken\<close> leaves in the table, \<^verbatim>\<open>em\<close> being the
  user's e-mail address.\<close>

definition new_row :: "zone \<Rightarrow> int \<Rightarrow> int \<Rightarrow> string \<Rightarrow> user \<Rightarrow> int option \<Rightarrow> string \<Rightarrow> row" where
  "new_row z now dbnow tok u rememberDays em =
     \<lparr>token = tok, userId = user_id u, provider = user_provider u, userEmail = em,
      userName = user_name u, userPhoto = or_null (user_photo u),
      expiresAt = setDate z now (case rememberDays of None \<Rightarrow> 30 | Some d \<Rightarrow> d),
      createdAt = dbnow, lastUsed = dbnow\<rparr>"

text \<open>
  When the storage layer accepts an issuance: none of the five calls is rejected, the
  e-mail address is not \<^verbatim>\<open>null\<close>, and the drawn token is not the token of another
  identity's row.
\<close>

definition accepted :: "faults \<Rightarrow> string \<Rightarrow> user \<Rightarrow> row list \<Rightarrow> bool" where
  "accepted f tok u db \<longleftrightarrow>
     \<not> f GetConnection \<and> \<not> f BeginTransaction \<and> \<not> f DeleteForUser \<and> \<not> f InsertToken
     \<and> \<not> f Commit \<and> user_email u \<noteq> None \<and> tok \<notin> set (map token (others u db))"

text \<open>The object that \<^verbatim>\<open>validateToken\<close> builds from a row.\<close>

definition snapshot :: "row \<Rightarrow> user" where
  "snapshot r = \<lparr>user_id = userId r, user_provider = provider r, user_name = userName r,
                 user_email = Some (userEmail r), user_photo = userPhoto r\<rparr>"

text \<open>The effect of the \<^verbatim>\<open>UPDATE\<close> on one row.\<close>

definition touch :: "string \<Rightarrow> int \<Rightarrow> row \<Rightarrow> row" where
  "touch tok dbnow r = (if token r = tok then r\<lparr>lastUsed := dbnow\<rparr> else r)"

text \<open>An environment in which exactly the calls of one kind fail.\<close>

definition only_fails :: "call \<Rightarrow> faults" where
  "only_fails k = (\<lambda>k'. k' = k)"

text \<open>A host on UTC, and a host whose clocks go from UTC+1 to UTC+2 at the instant \<open>s\<close>.\<close>

definition utc_zone :: zone where
  "utc_zone = \<lparr>offset_at_utc = (\<lambda>t. 0), offset_at_local = (\<lambda>t. 0)\<rparr>"

definition summer_from :: "int \<Rightarrow> zone" where
  "summer_from s =
     \<lparr>offset_at_utc = (\<lambda>t. if t < s then 3600000 else 7200000),
      offset_at_local = (\<lambda>t. if t < s + 3600000 then 3600000 else 7200000)\<rparr>"

subsection \<open>Sample data\<close>

definition row_a :: row where
  "row_a = \<lparr>token = ''aa'', userId = ''1'', provider = Google, userEmail = ''a@x.org'',
            userName = ''A'', userPhoto = None, expiresAt = 100, createdAt = 10, lastUsed = 10\<rparr>"

definition row_b :: row where
  "row_b = \<lparr>token = ''bb'', userId = ''2'', provider = Facebook, userEmail = ''b@x.org'',
            userName = ''B'', userPhoto = Some ''p'', expiresAt = 500, createdAt = 20,
            lastUsed = 30\<rparr>"

definition row_c :: row where
  "row_c = \<lparr>token = ''cc'', userId = ''3'', provider = Microsoft, userEmail = ''c@x.org'',
            userName = ''C'', userPhoto = None, expiresAt = 200, createdAt = 30, lastUsed = 40\<rparr>"

definition ann :: user where
  "ann = \<lparr>user_id = ''1'', user_provider = Google, user_name = ''A'',
          user_email = Some ''a@x.org'', user_photo = Some ''''\<rparr>"

definition bea :: user where
  "bea = \<lparr>user_id = ''2'', user_provider = Facebook, user_name = ''B'',
          user_email = Some ''b@x.org'', user_photo = Some ''p''\<rparr>"

definition ann2 :: user where
  "ann2 = \<lparr>user_id = ''1'', user_provider = Google, user_name = ''A. N.'',
           user_email = Some ''ann@y.org'', user_photo = None\<rparr>"

section \<open>Properties\<close>

subsection \<open>What each function does to the table\<close>

lemmas storage_defs = getConnection_def beginTransaction_def query_def commit_def rollback_def
  release_def restore_def issue_def Let_def

lemma createToken_accepted:
  assumes "accepted f tok u db"
  shows "createToken f z now dbnow tok u days db =
           (Inr tok, \<lparr>tbl = others u db @ [new_row z now dbnow tok u days (the (user_email u))],
                      undo = None,
                      issued = [GetConnection, BeginTransaction, DeleteForUser, InsertToken, Commit]\<rparr>)"
  using assms
  by (auto simp: accepted_def createToken_def createToken_try_def storage_defs
      sql_delete_for_user_def sql_insert_def others_def owned_by_def new_row_def
      split: option.splits)

lemma createToken_rejected:
  assumes "\<not> accepted f tok u db"
  shows "\<exists>e. fst (createToken f z now dbnow tok u days db) = Inl e"
    and "tbl (snd (createToken f z now dbnow tok u days db)) = db"
    and "undo (snd (createToken f z now dbnow tok u days db)) = None"
    and "distinct (issued (snd (createToken f z now dbnow tok u days db)))"
  using assms
  by (auto simp: accepted_def createToken_def createToken_try_def storage_defs
      sql_delete_for_user_def sql_insert_def others_def owned_by_def
      split: option.splits)

lemma createToken_Inr_accepted:
  assumes "fst (createToken f z now dbnow tok u days db) = Inr t"
  shows "accepted f tok u db \<and> t = tok"
proof (cases "accepted f tok u db")
  case True
  with assms show ?thesis by (simp add: createToken_accepted)
next
  case False
  from createToken_rejected(1)[OF this, of z now dbnow days] assms show ?thesis by auto
qed

lemma filter_Cons_mem: "filter P xs = r # rest \<Longrightarrow> r \<in> set xs \<and> P r"
proof -
  assume eq: "filter P xs = r # rest"
  have "r \<in> set (filter P xs)" by (simp add: eq)
  then show ?thesis by simp
qed

lemma unique_tokens_filter:
  assumes "unique_tokens db" "r \<in> set db"
  shows "filter (\<lambda>x. token x = token r) db = [r]"
  using assms unfolding unique_tokens_def
proof (induction db)
  case Nil
  then show ?case by simp
next
  case (Cons a db)
  show ?case
  proof (cases "a = r")
    case True
    with Cons.prems have "token r \<notin> token ` set db" by simp
    then have "\<forall>x\<in>set db. token x \<noteq> token r"
      by (metis image_eqI)
    then have "filter (\<lambda>x. token x = token r) db = []"
      by (simp add: filter_empty_conv)
    with True show ?thesis by simp
  next
    case False
    with Cons.prems have "r \<in> set db" "token a \<noteq> token r" by auto
    with Cons show ?thesis by simp
  qed
qed

lemma validateToken_absent:
  assumes "\<not> f GetConnection" "\<not> f SelectToken" "tok \<notin> set (map token db)"
  shows "validateToken f now dbnow tok db =
           (Inr None, \<lparr>tbl = db, undo = None, issued = [GetConnection, SelectToken]\<rparr>)"
proof -
  from assms(3) have "filter (\<lambda>r. token r = tok) db = []"
    by (auto simp: filter_empty_conv)
  with assms(1,2) show ?thesis
    by (simp add: validateToken_def storage_defs sql_select_token_def)
qed

lemma validateToken_expired:
  assumes "\<not> f GetConnection" "\<not> f SelectToken" "\<not> f DeleteExpired"
    and "filter (\<lambda>r. token r = tok) db = r # rest" "expiresAt r < now"
  shows "validateToken f now dbnow tok db =
           (Inr None, \<lparr>tbl = filter (\<lambda>r. token r \<noteq> tok) db, undo = None,
                       issued = [GetConnection, SelectToken, DeleteExpired]\<rparr>)"
  using assms
  by (simp add: validateToken_def storage_defs sql_select_token_def sql_delete_token_def)

lemma validateToken_live:
  assumes "\<not> f GetConnection" "\<not> f SelectToken" "\<not> f UpdateLastUsed"
    and "filter (\<lambda>r. token r = tok) db = r # rest" "\<not> expiresAt r < now"
  shows "validateToken f now dbnow tok db =
           (Inr (Some (snapshot r)), \<lparr>tbl = map (touch tok dbnow) db, undo = None,
                       issued = [GetConnection, SelectToken, UpdateLastUsed]\<rparr>)"
  using assms
  by (simp add: validateToken_def storage_defs sql_select_token_def sql_update_lastUsed_def
      snapshot_def touch_def)

lemma validateToken_touch_fails:
  assumes "\<not> f GetConnection" "\<not> f SelectToken" "f UpdateLastUsed"
    and "filter (\<lambda>r. token r = tok) db = r # rest" "\<not> expiresAt r < now"
  shows "validateToken f now dbnow tok db =
           (Inl (Failed UpdateLastUsed), \<lparr>tbl = db, undo = None,
                       issued = [GetConnection, SelectToken, UpdateLastUsed]\<rparr>)"
  using assms
  by (simp add: validateToken_def storage_defs sql_select_token_def sql_update_lastUsed_def)

lemma validateToken_tables:
  "tbl (snd (validateToken f now dbnow tok db)) = db
   \<or> tbl (snd (validateToken f now dbnow tok db)) = filter (\<lambda>r. token r \<noteq> tok) db
   \<or> (tbl (snd (validateToken f now dbnow tok db)) = map (touch tok dbnow) db
      \<and> (\<exists>u. fst (validateToken f now dbnow tok db) = Inr (Some u)))"
  by (auto simp: validateToken_def storage_defs sql_select_token_def sql_update_lastUsed_def
      sql_delete_token_def touch_def split: list.splits)

lemma validateToken_Some_tables:
  assumes "fst (validateToken f now dbnow tok db) = Inr (Some u)"
  shows "tbl (snd (validateToken f now dbnow tok db)) = map (touch tok dbnow) db"
    and "\<exists>r \<in> set db. token r = tok \<and> u = snapshot r \<and> \<not> expiresAt r < now"
proof -
  have ok: "\<not> f GetConnection" "\<not> f SelectToken"
    using assms
    by (auto simp: validateToken_def storage_defs sql_select_token_def split: if_splits)
  show "tbl (snd (validateToken f now dbnow tok db)) = map (touch tok dbnow) db"
    using assms
    by (auto simp: validateToken_def storage_defs sql_select_token_def sql_update_lastUsed_def
      sql_delete_token_def touch_def split: list.splits if_splits)
  show "\<exists>r \<in> set db. token r = tok \<and> u = snapshot r \<and> \<not> expiresAt r < now"
  proof (cases "filter (\<lambda>r. token r = tok) db")
    case Nil
    with assms ok show ?thesis
      by (simp add: validateToken_def storage_defs sql_select_token_def)
  next
    case (Cons r rest)
    with assms ok have "u = snapshot r \<and> \<not> expiresAt r < now"
      by (auto simp: validateToken_def storage_defs sql_select_token_def sql_update_lastUsed_def
          sql_delete_token_def snapshot_def split: if_splits)
    with filter_Cons_mem [OF Cons] show ?thesis by blast
  qed
qed

lemma deleteToken_ok:
  assumes "\<not> f GetConnection" "\<not> f DeleteToken"
  shows "deleteToken f tok db =
           (Inr (tok \<in> set (map token db)),
            \<lparr>tbl = filter (\<lambda>r. token r \<noteq> tok) db, undo = None,
             issued = [GetConnection, DeleteToken]\<rparr>)"
proof -
  have "(0 < length (filter (\<lambda>r. token r = tok) db)) = (tok \<in> set (map token db))"
    by (auto simp: filter_empty_conv)
  with assms show ?thesis
    by (simp add: deleteToken_def storage_defs sql_delete_token_def)
qed

lemma initializeTable_ok:
  assumes "\<not> f GetConnection" "\<not> f CreateTable" "\<not> f SweepExpired"
  shows "initializeTable f dbnow db =
           (Inr (), \<lparr>tbl = filter (\<lambda>r. \<not> expiresAt r < dbnow) db, undo = None,
                     issued = [GetConnection, CreateTable, SweepExpired]\<rparr>)"
  using assms
  by (simp add: initializeTable_def storage_defs sql_create_table_def sql_delete_expired_def)

lemma testConnection_ok:
  assumes "\<not> f GetConnection" "\<not> f SelectOne"
  shows "testConnection f db =
           (True, \<lparr>tbl = db, undo = None, issued = [GetConnection, SelectOne]\<rparr>)"
  using assms
  by (simp add: testConnection_def storage_defs sql_select_one_def)

lemma reliable_ok: "\<not> reliable k"
  by (simp add: reliable_def)

lemma sample_unique: "unique_tokens [row_a, row_b, row_c]"
  by (simp add: unique_tokens_def row_a_def row_b_def row_c_def)

lemma same_but_lastUsed_refl:
  assumes "r \<in> set db"
  shows "\<exists>x \<in> set db. r = x\<lparr>lastUsed := lastUsed r\<rparr>"
proof (rule bexI [of _ r])
  show "r = r\<lparr>lastUsed := lastUsed r\<rparr>" by simp
  show "r \<in> set db" by (rule assms)
qed

lemma same_but_lastUsed_subset:
  assumes "set t \<subseteq> set db"
  shows "\<forall>r' \<in> set t. \<exists>r \<in> set db. r' = r\<lparr>lastUsed := lastUsed r'\<rparr>"
proof
  fix r' assume "r' \<in> set t"
  with assms have "r' \<in> set db" by (rule_tac subsetD)
  then show "\<exists>r \<in> set db. r' = r\<lparr>lastUsed := lastUsed r'\<rparr>"
    by (rule same_but_lastUsed_refl)
qed

lemma same_but_lastUsed_touch:
  assumes "r' \<in> set (map (touch tok dbnow) db)"
  shows "\<exists>x \<in> set db. r' = x\<lparr>lastUsed := lastUsed r'\<rparr>"
proof -
  from assms obtain r where r: "r \<in> set db" "r' = touch tok dbnow r" by auto
  from r(2) have "r' = r\<lparr>lastUsed := lastUsed r'\<rparr>" by (simp add: touch_def)
  with r(1) show ?thesis by (rule_tac bexI [of _ r])
qed

lemma touch_other:
  assumes "r' \<in> set (map (touch tok dbnow) db)" "token r' \<noteq> tok"
  shows "r' \<in> set db"
proof -
  from assms(1) obtain r where r: "r \<in> set db" "r' = touch tok dbnow r" by auto
  with assms(2) have "r' = r" by (simp add: touch_def split: if_splits)
  with r(1) show ?thesis by simp
qed

lemma touch_lastUsed:
  assumes "token (touch tok dbnow r) = tok"
  shows "lastUsed (touch tok dbnow r) = dbnow"
  using assms by (cases "token r = tok") (simp_all add: touch_def)

lemma MakeDate_add_days: "MakeDate (Day t + n) (TimeWithinDay t) = t + n * msPerDay"
proof -
  have "(t div msPerDay + n) * msPerDay + t mod msPerDay
          = t div msPerDay * msPerDay + t mod msPerDay + n * msPerDay"
    by (simp add: algebra_simps)
  also have "\<dots> = t + n * msPerDay" by simp
  finally show ?thesis by (simp add: MakeDate_def Day_def TimeWithinDay_def)
qed

lemma setDate_local: "setDate z t n = UTC z (LocalTime z t + n * msPerDay)"
  by (simp add: setDate_def MakeDate_add_days Let_def)

lemma others_no_token:
  assumes "accepted f tok u db"
  shows "filter (\<lambda>r. token r = tok) (others u db) = []"
proof -
  from assms have "tok \<notin> set (map token (others u db))" by (simp add: accepted_def)
  then have "\<forall>r \<in> set (others u db). token r \<noteq> tok" by (metis image_eqI set_map)
  then show ?thesis by (simp add: filter_empty_conv)
qed

lemma snapshot_new_row:
  assumes "user_email u = Some em"
  shows "snapshot (new_row z now dbnow tok u days em) = u\<lparr>user_photo := or_null (user_photo u)\<rparr>"
  using assms by (simp add: snapshot_def new_row_def)

lemma or_null_nonempty: "p \<noteq> Some [] \<Longrightarrow> or_null p = p"
  by (simp add: or_null_def split: option.splits)

subsection \<open>At most one row per identity\<close>

lemma owned_by_new_row: "owned_by u (new_row z now dbnow tok u days em)"
  by (simp add: owned_by_def new_row_def)

lemma owned_by_cong:
  assumes "user_id u' = user_id u" "user_provider u' = user_provider u"
  shows "owned_by u' = owned_by u"
  using assms by (simp add: owned_by_def fun_eq_iff)

lemma filter_owned_others: "filter (owned_by u) (others u db) = []"
  by (simp add: others_def filter_empty_conv)

lemma length_filter_filter_le: "length (filter P (filter Q xs)) \<le> length (filter P xs)"
  by (induction xs) auto

lemma one_per_identity_others_new:
  assumes "one_per_identity db"
  shows "one_per_identity (others u db @ [new_row z now dbnow tok u days em])"
  unfolding one_per_identity_def
proof
  let ?new = "new_row z now dbnow tok u days em"
  fix r assume r: "r \<in> set (others u db @ [?new])"
  let ?same = "\<lambda>x. userId x = userId r \<and> provider x = provider r"
  show "length (filter ?same (others u db @ [?new])) \<le> 1"
  proof (cases "owned_by u r")
    case True
    then have "\<forall>x \<in> set (others u db). \<not> ?same x"
      by (auto simp: others_def owned_by_def)
    then have "filter ?same (others u db) = []" by (simp add: filter_empty_conv)
    then show ?thesis by simp
  next
    case False
    with r have rdb: "r \<in> set db" by (auto simp: others_def owned_by_new_row)
    from False have "\<not> ?same ?new" by (auto simp: owned_by_def new_row_def)
    then have "filter ?same (others u db @ [?new]) = filter ?same (others u db)" by simp
    also have "length \<dots> \<le> length (filter ?same db)"
      unfolding others_def by (rule length_filter_filter_le)
    also from assms rdb have "\<dots> \<le> 1" by (simp add: one_per_identity_def)
    finally show ?thesis .
  qed
qed


lemma one_per_identity_filter:
  assumes "one_per_identity db"
  shows "one_per_identity (filter P db)"
  unfolding one_per_identity_def
proof
  fix r assume "r \<in> set (filter P db)"
  then have "r \<in> set db" by simp
  with assms
  have "length (filter (\<lambda>x. userId x = userId r \<and> provider x = provider r) db) \<le> 1"
    by (simp add: one_per_identity_def)
  with length_filter_filter_le [of "\<lambda>x. userId x = userId r \<and> provider x = provider r" P db]
  show "length (filter (\<lambda>x. userId x = userId r \<and> provider x = provider r) (filter P db)) \<le> 1"
    by simp
qed

lemma filter_key_touch:
  "filter (\<lambda>x. userId x = i \<and> provider x = p) (map (touch tok dbnow) db)
     = map (touch tok dbnow) (filter (\<lambda>x. userId x = i \<and> provider x = p) db)"
  by (induction db) (simp_all add: touch_def)

lemma one_per_identity_touch:
  assumes "one_per_identity db"
  shows "one_per_identity (map (touch tok dbnow) db)"
  unfolding one_per_identity_def
proof
  fix r' assume "r' \<in> set (map (touch tok dbnow) db)"
  then obtain r where r: "r \<in> set db" "r' = touch tok dbnow r" by auto
  from r(2) have key: "userId r' = userId r" "provider r' = provider r"
    by (simp_all add: touch_def)
  from assms r(1)
  have "length (filter (\<lambda>x. userId x = userId r \<and> provider x = provider r) db) \<le> 1"
    by (simp add: one_per_identity_def)
  then show "length (filter (\<lambda>x. userId x = userId r' \<and> provider x = provider r')
               (map (touch tok dbnow) db)) \<le> 1"
    by (simp add: key filter_key_touch)
qed

lemma createToken_one_per_identity:
  assumes "one_per_identity db"
  shows "one_per_identity (tbl (snd (createToken f z now dbnow tok u days db)))"
proof (cases "accepted f tok u db")
  case True
  from one_per_identity_others_new [OF assms] show ?thesis
    by (simp add: createToken_accepted [OF True])
next
  case False
  with assms show ?thesis by (simp add: createToken_rejected(2))
qed

lemma validateToken_one_per_identity:
  assumes "one_per_identity db"
  shows "one_per_identity (tbl (snd (validateToken f now dbnow tok db)))"
  using validateToken_tables [of f now dbnow tok db] assms
    one_per_identity_filter [OF assms, of "\<lambda>r. token r \<noteq> tok"]
    one_per_identity_touch [OF assms, of tok dbnow]
  by (elim disjE conjE) simp_all

lemma deleteToken_tables:
  "tbl (snd (deleteToken f tok db)) = db
   \<or> tbl (snd (deleteToken f tok db)) = filter (\<lambda>r. token r \<noteq> tok) db"
  by (simp add: deleteToken_def storage_defs sql_delete_token_def)

lemma deleteToken_one_per_identity:
  assumes "one_per_identity db"
  shows "one_per_identity (tbl (snd (deleteToken f tok db)))"
  using deleteToken_tables [of f tok db] assms
    one_per_identity_filter [OF assms, of "\<lambda>r. token r \<noteq> tok"]
  by (elim disjE) simp_all

lemma startup_tables:
  "startup f dbnow db = db \<or> startup f dbnow db = filter (\<lambda>r. \<not> expiresAt r < dbnow) db"
  by (simp add: startup_def testConnection_def initializeTable_def storage_defs
      sql_select_one_def sql_create_table_def sql_delete_expired_def)

lemma startup_one_per_identity:
  assumes "one_per_identity db"
  shows "one_per_identity (startup f dbnow db)"
  using startup_tables [of f dbnow db] assms
    one_per_identity_filter [OF assms, of "\<lambda>r. \<not> expiresAt r < dbnow"]
  by (elim disjE) simp_all

lemma others_idem: "others u (others u db @ [new_row z now dbnow tok u days em]) = others u db"
  by (simp add: others_def owned_by_new_row)

subsection \<open>The constraints of the table are kept\<close>

lemma unique_tokens_filter_kept:
  assumes "unique_tokens db"
  shows "unique_tokens (filter P db)"
  using assms by (simp add: unique_tokens_def distinct_map_filter)

lemma map_token_touch: "map token (map (touch tok dbnow) db) = map token db"
  by (induction db) (simp_all add: touch_def)

lemma unique_tokens_touch:
  assumes "unique_tokens db"
  shows "unique_tokens (map (touch tok dbnow) db)"
  using assms unfolding unique_tokens_def map_token_touch .

lemma createToken_unique_tokens:
  assumes "unique_tokens db"
  shows "unique_tokens (tbl (snd (createToken f z now dbnow tok u days db)))"
proof (cases "accepted f tok u db")
  case True
  from assms have "distinct (map token (others u db))"
    by (simp add: unique_tokens_def others_def distinct_map_filter)
  moreover from True have "tok \<notin> set (map token (others u db))"
    by (simp add: accepted_def)
  ultimately show ?thesis
    by (simp add: createToken_accepted [OF True] unique_tokens_def new_row_def)
next
  case False
  with assms show ?thesis by (simp add: createToken_rejected(2))
qed

lemma validateToken_unique_tokens:
  assumes "unique_tokens db"
  shows "unique_tokens (tbl (snd (validateToken f now dbnow tok db)))"
  using validateToken_tables [of f now dbnow tok db] assms
    unique_tokens_filter_kept [OF assms, of "\<lambda>r. token r \<noteq> tok"]
    unique_tokens_touch [OF assms, of tok dbnow]
  by (elim disjE conjE) simp_all

lemma deleteToken_unique_tokens:
  assumes "unique_tokens db"
  shows "unique_tokens (tbl (snd (deleteToken f tok db)))"
  using deleteToken_tables [of f tok db] assms
    unique_tokens_filter_kept [OF assms, of "\<lambda>r. token r \<noteq> tok"]
  by (elim disjE) simp_all

lemma startup_unique_tokens:
  assumes "unique_tokens db"
  shows "unique_tokens (startup f dbnow db)"
  using startup_tables [of f dbnow db] assms
    unique_tokens_filter_kept [OF assms, of "\<lambda>r. \<not> expiresAt r < dbnow"]
  by (elim disjE) simp_all

subsection \<open>Deletion\<close>

text \<open>
  Claim C4. When the storage calls go through, \<^verbatim>\<open>deleteToken\<close> does not raise: it returns
  \<^verbatim>\<open>true\<close> exactly when a row with that token was in the table (so \<^verbatim>\<open>false\<close> for an unknown
  token), the rows with that token are gone afterwards and all other rows stay, and a
  following \<^verbatim>\<open>validateToken\<close> of the token returns \<^verbatim>\<open>null\<close>.
\<close>

theorem deleteToken_reports_removal:
  assumes "\<not> f GetConnection" "\<not> f DeleteToken" "\<not> g GetConnection" "\<not> g SelectToken"
  shows "fst (deleteToken f tok db) = Inr (tok \<in> set (map token db))
         \<and> tbl (snd (deleteToken f tok db)) = filter (\<lambda>r. token r \<noteq> tok) db
         \<and> fst (validateToken g now dbnow tok (tbl (snd (deleteToken f tok db)))) = Inr None"
proof -
  have "tok \<notin> set (map token (filter (\<lambda>r. token r \<noteq> tok) db))" by auto
  from validateToken_absent [OF assms(3,4) this] deleteToken_ok [OF assms(1,2)]
  show ?thesis by simp
qed

theorem deleteToken_reports_removal_witness:
  "\<not> reliable GetConnection \<and> \<not> reliable DeleteToken \<and> \<not> reliable SelectToken
   \<and> fst (deleteToken reliable ''bb'' [row_a, row_b]) = Inr True
   \<and> tbl (snd (deleteToken reliable ''bb'' [row_a, row_b])) = [row_a]
   \<and> fst (validateToken reliable 0 0 ''bb'' (tbl (snd (deleteToken reliable ''bb'' [row_a, row_b]))))
       = Inr None
   \<and> fst (deleteToken reliable ''zz'' [row_a, row_b]) = Inr False"
proof -
  have ok: "\<not> reliable GetConnection" "\<not> reliable DeleteToken" "\<not> reliable SelectToken"
    by (simp_all add: reliable_def)
  have known: "''bb'' \<in> set (map token [row_a, row_b])"
    and unknown: "''zz'' \<notin> set (map token [row_a, row_b])"
    and rest: "filter (\<lambda>r. token r \<noteq> ''bb'') [row_a, row_b] = [row_a]"
    by (simp_all add: row_a_def row_b_def)
  from deleteToken_reports_removal [OF ok(1,2) ok(1,3), of "''bb''" "[row_a, row_b]" 0 0]
    deleteToken_reports_removal [OF ok(1,2) ok(1,3), of "''zz''" "[row_a, row_b]" 0 0]
  show ?thesis
    using ok known unknown rest by auto
qed

subsection \<open>The sweep at startup\<close>

text \<open>
  Claim C9. When the connection test and the calls of \<^verbatim>\<open>initializeTable\<close> go through, the
  server starts with exactly the rows whose \<^verbatim>\<open>expiresAt\<close> is not earlier than the database
  clock, in their order and unchanged: every expired row is gone and every other row is
  kept.
\<close>

theorem startup_sweep:
  assumes "\<not> f GetConnection" "\<not> f SelectOne" "\<not> f CreateTable" "\<not> f SweepExpired"
  shows "startup f dbnow db = filter (\<lambda>r. \<not> expiresAt r < dbnow) db
         \<and> (\<forall>r \<in> set db. expiresAt r < dbnow \<longrightarrow> r \<notin> set (startup f dbnow db))
         \<and> (\<forall>r \<in> set db. \<not> expiresAt r < dbnow \<longrightarrow> r \<in> set (startup f dbnow db))
         \<and> set (startup f dbnow db) \<subseteq> set db"
proof -
  have "startup f dbnow db = filter (\<lambda>r. \<not> expiresAt r < dbnow) db"
    using assms by (simp add: startup_def testConnection_ok initializeTable_ok)
  then show ?thesis by auto
qed

theorem startup_sweep_witness:
  "\<not> reliable GetConnection \<and> \<not> reliable SelectOne \<and> \<not> reliable CreateTable
   \<and> \<not> reliable SweepExpired
   \<and> expiresAt row_a < 300 \<and> \<not> expiresAt row_b < 300 \<and> expiresAt row_c < 300
   \<and> startup reliable 300 [row_a, row_b, row_c] = [row_b]"
  using startup_sweep [of reliable 300 "[row_a, row_b, row_c]"]
  by (simp add: reliable_def row_a_def row_b_def row_c_def)

subsection \<open>Validation\<close>

text \<open>
  Claim C3. Let the stored row of a token have \<^verbatim>\<open>expiresAt\<close> earlier than the host clock.
  When the storage calls go through, \<^verbatim>\<open>validateToken\<close> returns \<^verbatim>\<open>null\<close>, and in the table
  it leaves the row is gone: no row carries that token, and all other rows are kept.
\<close>

theorem validateToken_expired_removed:
  assumes "unique_tokens db" "r \<in> set db" "expiresAt r < now"
    and "\<not> f GetConnection" "\<not> f SelectToken" "\<not> f DeleteExpired"
  shows "fst (validateToken f now dbnow (token r) db) = Inr None
         \<and> tbl (snd (validateToken f now dbnow (token r) db)) = filter (\<lambda>x. token x \<noteq> token r) db
         \<and> r \<notin> set (tbl (snd (validateToken f now dbnow (token r) db)))
         \<and> token r \<notin> set (map token (tbl (snd (validateToken f now dbnow (token r) db))))"
proof -
  from unique_tokens_filter [OF assms(1,2)]
  have "filter (\<lambda>x. token x = token r) db = r # []" .
  from validateToken_expired [OF assms(4,5,6) this assms(3)]
  show ?thesis by auto
qed

theorem validateToken_expired_removed_witness:
  "unique_tokens [row_a, row_b, row_c] \<and> row_a \<in> set [row_a, row_b, row_c]
   \<and> expiresAt row_a < 300
   \<and> fst (validateToken reliable 300 300 (token row_a) [row_a, row_b, row_c]) = Inr None
   \<and> tbl (snd (validateToken reliable 300 300 (token row_a) [row_a, row_b, row_c])) = [row_b, row_c]"
proof -
  have mem: "row_a \<in> set [row_a, row_b, row_c]" by simp
  have exp: "expiresAt row_a < 300" by (simp add: row_a_def)
  have rest: "filter (\<lambda>x. token x \<noteq> token row_a) [row_a, row_b, row_c] = [row_b, row_c]"
    by (simp add: row_a_def row_b_def row_c_def)
  from validateToken_expired_removed [OF sample_unique mem exp reliable_ok reliable_ok reliable_ok,
      where dbnow = 300]
  show ?thesis using sample_unique mem exp rest by simp
qed

text \<open>
  Claim C10. The comparison is strict. When the storage calls go through, a row whose
  \<^verbatim>\<open>expiresAt\<close> equals the host clock is live: the snapshot of the row is returned, no row
  is deleted and the row's \<^verbatim>\<open>lastUsed\<close> becomes the database clock. The result is \<^verbatim>\<open>null\<close>
  exactly when \<^verbatim>\<open>expiresAt\<close> is strictly earlier than the host clock.
\<close>

theorem validateToken_boundary:
  assumes "unique_tokens db" "r \<in> set db"
    and "\<not> f GetConnection" "\<not> f SelectToken" "\<not> f UpdateLastUsed" "\<not> f DeleteExpired"
  shows "(expiresAt r = now \<longrightarrow>
            fst (validateToken f now dbnow (token r) db) = Inr (Some (snapshot r))
            \<and> tbl (snd (validateToken f now dbnow (token r) db)) = map (touch (token r) dbnow) db
            \<and> r\<lparr>lastUsed := dbnow\<rparr> \<in> set (tbl (snd (validateToken f now dbnow (token r) db))))
         \<and> (fst (validateToken f now dbnow (token r) db) = Inr None \<longleftrightarrow> expiresAt r < now)"
proof -
  from unique_tokens_filter [OF assms(1,2)]
  have rows: "filter (\<lambda>x. token x = token r) db = r # []" .
  have touched: "r\<lparr>lastUsed := dbnow\<rparr> \<in> set (map (touch (token r) dbnow) db)"
    using assms(2) by (force simp: touch_def)
  show ?thesis
  proof (cases "expiresAt r < now")
    case True
    from validateToken_expired [OF assms(3,4,6) rows True] True show ?thesis by simp
  next
    case False
    from validateToken_live [OF assms(3,4,5) rows False] False touched show ?thesis by simp
  qed
qed

theorem validateToken_boundary_witness:
  "unique_tokens [row_a, row_b, row_c] \<and> row_b \<in> set [row_a, row_b, row_c]
   \<and> expiresAt row_b = 500
   \<and> fst (validateToken reliable 500 600 (token row_b) [row_a, row_b, row_c])
       = Inr (Some (snapshot row_b))
   \<and> tbl (snd (validateToken reliable 500 600 (token row_b) [row_a, row_b, row_c]))
       = [row_a, row_b\<lparr>lastUsed := 600\<rparr>, row_c]
   \<and> fst (validateToken reliable 501 600 (token row_b) [row_a, row_b, row_c]) = Inr None"
proof -
  have mem: "row_b \<in> set [row_a, row_b, row_c]" by simp
  have exp: "expiresAt row_b = 500" by (simp add: row_b_def)
  have m: "map (touch (token row_b) 600) [row_a, row_b, row_c] = [row_a, row_b\<lparr>lastUsed := 600\<rparr>, row_c]"
    by (simp add: touch_def row_a_def row_b_def row_c_def)
  from validateToken_boundary [OF sample_unique mem reliable_ok reliable_ok reliable_ok reliable_ok,
      where now = 500 and dbnow = 600]
    validateToken_boundary [OF sample_unique mem reliable_ok reliable_ok reliable_ok reliable_ok,
      where now = 501 and dbnow = 600]
  show ?thesis using sample_unique mem exp m by simp
qed

text \<open>
  Claim C5. Whatever the storage layer does: a validation that returns a user has set
  \<^verbatim>\<open>lastUsed\<close> of the rows with that token to the database clock and has changed nothing
  else; after any validation, every row of the table is a row of the table before, up to
  its \<^verbatim>\<open>lastUsed\<close> (so \<^verbatim>\<open>expiresAt\<close> and all other columns are as before), and the rows of
  other tokens are as before.
\<close>

theorem validateToken_frame:
  "(\<forall>u. fst (validateToken f now dbnow tok db) = Inr (Some u) \<longrightarrow>
        tbl (snd (validateToken f now dbnow tok db)) = map (touch tok dbnow) db
        \<and> (\<exists>r \<in> set (tbl (snd (validateToken f now dbnow tok db))). token r = tok)
        \<and> (\<forall>r \<in> set (tbl (snd (validateToken f now dbnow tok db))).
              token r = tok \<longrightarrow> lastUsed r = dbnow))
   \<and> (\<forall>r' \<in> set (tbl (snd (validateToken f now dbnow tok db))).
         \<exists>r \<in> set db. r' = r\<lparr>lastUsed := lastUsed r'\<rparr>)
   \<and> (\<forall>r' \<in> set (tbl (snd (validateToken f now dbnow tok db))).
         token r' \<noteq> tok \<longrightarrow> r' \<in> set db)"
proof -
  let ?t = "tbl (snd (validateToken f now dbnow tok db))"
  have A: "\<forall>u. fst (validateToken f now dbnow tok db) = Inr (Some u) \<longrightarrow>
        ?t = map (touch tok dbnow) db \<and> (\<exists>r \<in> set ?t. token r = tok)
        \<and> (\<forall>r \<in> set ?t. token r = tok \<longrightarrow> lastUsed r = dbnow)"
  proof (intro allI impI)
    fix u assume s: "fst (validateToken f now dbnow tok db) = Inr (Some u)"
    from validateToken_Some_tables(1) [OF s]
    have t: "?t = map (touch tok dbnow) db" .
    from validateToken_Some_tables(2) [OF s]
    obtain r where r: "r \<in> set db" "token r = tok" by blast
    then have "touch tok dbnow r \<in> set (map (touch tok dbnow) db)"
      and "token (touch tok dbnow r) = tok"
      by (simp_all add: touch_def)
    then have ex: "\<exists>r \<in> set (map (touch tok dbnow) db). token r = tok" by (rule bexI [rotated])
    have all: "\<forall>r \<in> set (map (touch tok dbnow) db). token r = tok \<longrightarrow> lastUsed r = dbnow"
      using touch_lastUsed by simp
    show "?t = map (touch tok dbnow) db \<and> (\<exists>r \<in> set ?t. token r = tok)
        \<and> (\<forall>r \<in> set ?t. token r = tok \<longrightarrow> lastUsed r = dbnow)"
      unfolding t using ex all by (intro conjI refl)
  qed
  from validateToken_tables [of f now dbnow tok db]
  consider "?t = db" | "?t = filter (\<lambda>r. token r \<noteq> tok) db" | "?t = map (touch tok dbnow) db"
    by blast
  then have B: "\<forall>r' \<in> set ?t. \<exists>r \<in> set db. r' = r\<lparr>lastUsed := lastUsed r'\<rparr>"
  proof cases
    case 1
    then have "set ?t \<subseteq> set db" by simp
    then show ?thesis by (rule same_but_lastUsed_subset)
  next
    case 2
    then have "set ?t \<subseteq> set db" by simp
    then show ?thesis by (rule same_but_lastUsed_subset)
  next
    case 3
    show ?thesis unfolding 3 by (intro ballI same_but_lastUsed_touch)
  qed
  from validateToken_tables [of f now dbnow tok db]
  consider "?t = db" | "?t = filter (\<lambda>r. token r \<noteq> tok) db" | "?t = map (touch tok dbnow) db"
    by blast
  then have C: "\<forall>r' \<in> set ?t. token r' \<noteq> tok \<longrightarrow> r' \<in> set db"
  proof cases
    case 1
    then show ?thesis by simp
  next
    case 2
    then show ?thesis by simp
  next
    case 3
    show ?thesis unfolding 3 by (intro ballI impI) (rule touch_other)
  qed
  show ?thesis by (rule conjI [OF A conjI [OF B C]])
qed

theorem validateToken_frame_witness:
  "fst (validateToken reliable 300 400 ''bb'' [row_a, row_b, row_c]) = Inr (Some (snapshot row_b))
   \<and> tbl (snd (validateToken reliable 300 400 ''bb'' [row_a, row_b, row_c]))
       = [row_a, row_b\<lparr>lastUsed := 400\<rparr>, row_c]
   \<and> expiresAt (row_b\<lparr>lastUsed := 400\<rparr>) = expiresAt row_b"
proof -
  have s: "fst (validateToken reliable 300 400 ''bb'' [row_a, row_b, row_c])
             = Inr (Some (snapshot row_b))"
    by (simp add: validateToken_def storage_defs sql_select_token_def sql_update_lastUsed_def
      reliable_def snapshot_def row_a_def row_b_def row_c_def)
  have m: "map (touch ''bb'' 400) [row_a, row_b, row_c] = [row_a, row_b\<lparr>lastUsed := 400\<rparr>, row_c]"
    by (simp add: touch_def row_a_def row_b_def row_c_def)
  from validateToken_frame [of reliable 300 400 "''bb''" "[row_a, row_b, row_c]"] s
  have "tbl (snd (validateToken reliable 300 400 ''bb'' [row_a, row_b, row_c]))
          = map (touch ''bb'' 400) [row_a, row_b, row_c]"
    by blast
  with s m show ?thesis by simp
qed

text \<open>
  Claim C6, as the code has it. The update of \<^verbatim>\<open>lastUsed\<close> is not best-effort: for a token
  that is found and not expired, when the \<^verbatim>\<open>UPDATE\<close> is rejected, \<^verbatim>\<open>validateToken\<close> raises that
  failure instead of returning the snapshot, and the table is left as it was.
\<close>

theorem validateToken_touch_failure_propagates:
  assumes "unique_tokens db" "r \<in> set db" "\<not> expiresAt r < now"
    and "\<not> f GetConnection" "\<not> f SelectToken" "f UpdateLastUsed"
  shows "fst (validateToken f now dbnow (token r) db) = Inl (Failed UpdateLastUsed)
         \<and> tbl (snd (validateToken f now dbnow (token r) db)) = db"
proof -
  from unique_tokens_filter [OF assms(1,2)]
  have rows: "filter (\<lambda>x. token x = token r) db = r # []" .
  from validateToken_touch_fails [OF assms(4,5,6) rows assms(3)]
  show ?thesis by simp
qed

theorem validateToken_touch_failure_propagates_witness:
  "unique_tokens [row_a, row_b, row_c] \<and> row_c \<in> set [row_a, row_b, row_c]
   \<and> \<not> expiresAt row_c < 150
   \<and> \<not> only_fails UpdateLastUsed GetConnection \<and> \<not> only_fails UpdateLastUsed SelectToken
   \<and> only_fails UpdateLastUsed UpdateLastUsed
   \<and> fst (validateToken (only_fails UpdateLastUsed) 150 160 (token row_c) [row_a, row_b, row_c])
       = Inl (Failed UpdateLastUsed)
   \<and> tbl (snd (validateToken (only_fails UpdateLastUsed) 150 160 (token row_c)
        [row_a, row_b, row_c])) = [row_a, row_b, row_c]"
proof -
  have mem: "row_c \<in> set [row_a, row_b, row_c]" by simp
  have exp: "\<not> expiresAt row_c < 150" by (simp add: row_c_def)
  have f: "\<not> only_fails UpdateLastUsed GetConnection" "\<not> only_fails UpdateLastUsed SelectToken"
    "only_fails UpdateLastUsed UpdateLastUsed"
    by (simp_all add: only_fails_def)
  from validateToken_touch_failure_propagates [OF sample_unique mem exp f, of 160]
  show ?thesis using sample_unique mem exp f by simp
qed

text \<open>
  The claim as it was stated, that a failing update still yields the snapshot, is false
  for the live token \<^verbatim>\<open>bb\<close>.
\<close>

theorem validateToken_touch_failure_counterexample:
  "row_b \<in> set [row_a, row_b, row_c] \<and> \<not> expiresAt row_b < 300
   \<and> fst (validateToken (only_fails UpdateLastUsed) 300 300 ''bb'' [row_a, row_b, row_c])
       = Inl (Failed UpdateLastUsed)
   \<and> fst (validateToken (only_fails UpdateLastUsed) 300 300 ''bb'' [row_a, row_b, row_c])
       \<noteq> Inr (Some (snapshot row_b))"
  by (simp add: validateToken_def storage_defs sql_select_token_def sql_update_lastUsed_def
      only_fails_def row_a_def row_b_def row_c_def)

subsection \<open>Issuance\<close>

text \<open>
  Claim C7. Whatever the storage layer does, \<^verbatim>\<open>createToken\<close> ends in one of two ways.
  If the storage layer accepts the issuance, the token is returned and the table is the
  old one without the rows of the identity, followed by the new row: the delete and the
  insert have both taken effect. Otherwise an error is raised to the caller and the table
  is exactly the old one, also when the \<^verbatim>\<open>DELETE\<close> had already run: neither has taken
  effect. In both cases no transaction is left open, and no storage call is issued twice.
\<close>

theorem createToken_atomic:
  "(accepted f tok u db \<longrightarrow>
      fst (createToken f z now dbnow tok u days db) = Inr tok
      \<and> tbl (snd (createToken f z now dbnow tok u days db))
          = others u db @ [new_row z now dbnow tok u days (the (user_email u))])
   \<and> (\<not> accepted f tok u db \<longrightarrow>
      (\<exists>e. fst (createToken f z now dbnow tok u days db) = Inl e)
      \<and> tbl (snd (createToken f z now dbnow tok u days db)) = db)
   \<and> undo (snd (createToken f z now dbnow tok u days db)) = None
   \<and> distinct (issued (snd (createToken f z now dbnow tok u days db)))"
proof (cases "accepted f tok u db")
  case True
  from createToken_accepted [OF True, of z now dbnow days] True
  show ?thesis by simp
next
  case False
  from createToken_rejected [OF False, of z now dbnow days] False
  show ?thesis by simp
qed

theorem createToken_atomic_witness:
  "\<not> accepted (only_fails InsertToken) ''tt'' ann [row_a, row_b]
   \<and> fst (createToken (only_fails InsertToken) utc_zone 50 60 ''tt'' ann None [row_a, row_b])
       = Inl (Failed InsertToken)
   \<and> tbl (snd (createToken (only_fails InsertToken) utc_zone 50 60 ''tt'' ann None [row_a, row_b]))
       = [row_a, row_b]
   \<and> issued (snd (createToken (only_fails InsertToken) utc_zone 50 60 ''tt'' ann None
        [row_a, row_b]))
       = [GetConnection, BeginTransaction, DeleteForUser, InsertToken, Rollback]
   \<and> accepted reliable ''tt'' ann [row_a, row_b]
   \<and> fst (createToken reliable utc_zone 50 60 ''tt'' ann None [row_a, row_b]) = Inr ''tt''
   \<and> map token (tbl (snd (createToken reliable utc_zone 50 60 ''tt'' ann None [row_a, row_b])))
       = [''bb'', ''tt'']"
proof -
  have rej: "\<not> accepted (only_fails InsertToken) ''tt'' ann [row_a, row_b]"
    by (simp add: accepted_def only_fails_def)
  have acc: "accepted reliable ''tt'' ann [row_a, row_b]"
    by (simp add: accepted_def reliable_def others_def owned_by_def ann_def row_a_def row_b_def)
  have oth: "others ann [row_a, row_b] = [row_b]"
    by (simp add: others_def owned_by_def ann_def row_a_def row_b_def)
  have err: "fst (createToken (only_fails InsertToken) utc_zone 50 60 ''tt'' ann None [row_a, row_b])
       = Inl (Failed InsertToken)"
    and iss: "issued (snd (createToken (only_fails InsertToken) utc_zone 50 60 ''tt'' ann None
        [row_a, row_b]))
       = [GetConnection, BeginTransaction, DeleteForUser, InsertToken, Rollback]"
    by (simp_all add: createToken_def createToken_try_def storage_defs only_fails_def
        sql_delete_for_user_def)
  from createToken_atomic [of "only_fails InsertToken" "''tt''" ann "[row_a, row_b]" utc_zone 50 60 None]
    createToken_atomic [of reliable "''tt''" ann "[row_a, row_b]" utc_zone 50 60 None]
  show ?thesis using rej acc oth err iss
    by (simp add: new_row_def row_b_def)
qed

text \<open>
  Claim C8. After a successful \<^verbatim>\<open>createToken\<close> the new row is the last row of the table
  and the only one with the returned token. Its \<^verbatim>\<open>expiresAt\<close> is the host clock's local
  reading advanced by \<^verbatim>\<open>rememberDays\<close> days of 86400000 ms (30 when the argument is left
  out), converted back to an instant with the offset in force then; its \<^verbatim>\<open>createdAt\<close> and
  \<^verbatim>\<open>lastUsed\<close> are both the database clock of the \<^verbatim>\<open>INSERT\<close>.
\<close>

theorem createToken_expiry:
  assumes "fst (createToken f z now dbnow tok u rememberDays db) = Inr t"
  shows "token (last (tbl (snd (createToken f z now dbnow tok u rememberDays db)))) = t
       \<and> expiresAt (last (tbl (snd (createToken f z now dbnow tok u rememberDays db))))
           = UTC z (LocalTime z now
                    + (case rememberDays of None \<Rightarrow> 30 | Some d \<Rightarrow> d) * msPerDay)
       \<and> createdAt (last (tbl (snd (createToken f z now dbnow tok u rememberDays db)))) = dbnow
       \<and> lastUsed (last (tbl (snd (createToken f z now dbnow tok u rememberDays db)))) = dbnow
       \<and> filter (\<lambda>r. token r = t) (tbl (snd (createToken f z now dbnow tok u rememberDays db)))
           = [last (tbl (snd (createToken f z now dbnow tok u rememberDays db)))]"
proof -
  from createToken_Inr_accepted [OF assms] have acc: "accepted f tok u db" and t: "t = tok"
    by simp_all
  from acc have "tok \<notin> set (map token (others u db))" by (simp add: accepted_def)
  then have "\<forall>r \<in> set (others u db). token r \<noteq> tok" by (metis image_eqI set_map)
  then have none: "filter (\<lambda>r. token r = tok) (others u db) = []"
    by (simp add: filter_empty_conv)
  show ?thesis
    unfolding t createToken_accepted [OF acc]
    by (simp add: none new_row_def setDate_local)
qed

theorem createToken_expiry_witness:
  "fst (createToken reliable utc_zone 1000 2000 ''tt'' bea None [row_a]) = Inr ''tt''
   \<and> expiresAt (last (tbl (snd (createToken reliable utc_zone 1000 2000 ''tt'' bea None [row_a]))))
       = 2592001000
   \<and> createdAt (last (tbl (snd (createToken reliable utc_zone 1000 2000 ''tt'' bea None [row_a]))))
       = 2000
   \<and> lastUsed (last (tbl (snd (createToken reliable utc_zone 1000 2000 ''tt'' bea None [row_a]))))
       = 2000
   \<and> expiresAt (last (tbl (snd (createToken reliable utc_zone 1000 2000 ''tt'' bea (Some 1) [row_a]))))
       = 86401000"
proof -
  have acc: "accepted reliable ''tt'' bea [row_a]"
    by (simp add: accepted_def reliable_def others_def owned_by_def bea_def row_a_def)
  have ok: "fst (createToken reliable utc_zone 1000 2000 ''tt'' bea None [row_a]) = Inr ''tt''"
    and ok1: "fst (createToken reliable utc_zone 1000 2000 ''tt'' bea (Some 1) [row_a]) = Inr ''tt''"
    by (simp_all add: createToken_accepted [OF acc])
  from createToken_expiry [OF ok] createToken_expiry [OF ok1]
  show ?thesis using ok
    by (simp add: UTC_def LocalTime_def utc_zone_def msPerDay_def)
qed

text \<open>
  On a host without clock changes this is a fixed duration; across a clock change it is
  not: one calendar day over a change from UTC+1 to UTC+2 is 23 hours.
\<close>

lemma setDate_utc_zone: "setDate utc_zone t n = t + n * msPerDay"
  by (simp add: setDate_local UTC_def LocalTime_def utc_zone_def)

lemma setDate_summer_from:
  "setDate (summer_from 1000000000) 999999000 1 = 999999000 + 1 * msPerDay - 3600000"
  by (simp add: setDate_local UTC_def LocalTime_def summer_from_def msPerDay_def)

text \<open>
  Claim C1, as the code has it. When \<^verbatim>\<open>createToken\<close> has returned a token (which needs an
  e-mail address that is not \<^verbatim>\<open>null\<close>), and the token is validated before the host clock
  passes its \<^verbatim>\<open>expiresAt\<close>, with the storage calls going through, \<^verbatim>\<open>validateToken\<close> returns
  the user's \<^verbatim>\<open>id\<close>, \<^verbatim>\<open>provider\<close>, \<^verbatim>\<open>name\<close> and \<^verbatim>\<open>email\<close> as issued, and as \<^verbatim>\<open>photo\<close> the value
  \<^verbatim>\<open>user.photo || null\<close>: the user's photo, except that an empty string comes back as
  \<^verbatim>\<open>null\<close>. For a user whose photo is not the empty string the result is the user.
\<close>

theorem createToken_validateToken_roundtrip:
  assumes "fst (createToken f z now dbnow tok u days db) = Inr t"
    and "\<not> setDate z now (case days of None \<Rightarrow> 30 | Some d \<Rightarrow> d) < now'"
    and "\<not> g GetConnection" "\<not> g SelectToken" "\<not> g UpdateLastUsed"
  shows "fst (validateToken g now' dbnow' t (tbl (snd (createToken f z now dbnow tok u days db))))
           = Inr (Some (u\<lparr>user_photo := or_null (user_photo u)\<rparr>))
         \<and> (user_photo u \<noteq> Some [] \<longrightarrow>
              fst (validateToken g now' dbnow' t (tbl (snd (createToken f z now dbnow tok u days db))))
                = Inr (Some u))"
proof -
  from createToken_Inr_accepted [OF assms(1)] have acc: "accepted f tok u db" and t: "t = tok"
    by simp_all
  from acc obtain em where em: "user_email u = Some em" by (auto simp: accepted_def)
  let ?new = "new_row z now dbnow tok u days em"
  have tb: "tbl (snd (createToken f z now dbnow tok u days db)) = others u db @ [?new]"
    by (simp add: createToken_accepted [OF acc] em)
  have rows: "filter (\<lambda>r. token r = tok) (others u db @ [?new]) = ?new # []"
    by (simp add: others_no_token [OF acc]) (simp add: new_row_def)
  have live: "\<not> expiresAt ?new < now'"
    using assms(2) by (simp add: new_row_def)
  from validateToken_live [OF assms(3,4,5) rows live, of dbnow']
  have "fst (validateToken g now' dbnow' t (tbl (snd (createToken f z now dbnow tok u days db))))
          = Inr (Some (u\<lparr>user_photo := or_null (user_photo u)\<rparr>))"
    by (simp add: tb t snapshot_new_row [OF em])
  then show ?thesis by (simp add: or_null_nonempty)
qed

theorem createToken_validateToken_roundtrip_witness:
  "fst (createToken reliable utc_zone 1000 2000 ''tt'' bea None [row_a]) = Inr ''tt''
   \<and> \<not> setDate utc_zone 1000 30 < 1001
   \<and> user_photo bea \<noteq> Some []
   \<and> fst (validateToken reliable 1001 2001 ''tt''
          (tbl (snd (createToken reliable utc_zone 1000 2000 ''tt'' bea None [row_a]))))
       = Inr (Some bea)"
proof -
  have acc: "accepted reliable ''tt'' bea [row_a]"
    by (simp add: accepted_def reliable_def others_def owned_by_def bea_def row_a_def)
  have ok: "fst (createToken reliable utc_zone 1000 2000 ''tt'' bea None [row_a]) = Inr ''tt''"
    by (simp add: createToken_accepted [OF acc])
  have live: "\<not> setDate utc_zone 1000 (case None of None \<Rightarrow> 30 | Some d \<Rightarrow> d) < 1001"
    by (simp add: setDate_def LocalTime_def UTC_def utc_zone_def MakeDate_def Day_def
        TimeWithinDay_def msPerDay_def)
  have photo: "user_photo bea \<noteq> Some []" by (simp add: bea_def)
  from createToken_validateToken_roundtrip [OF ok live reliable_ok [of GetConnection]
      reliable_ok [of SelectToken] reliable_ok [of UpdateLastUsed], where dbnow' = 2001] photo
  have "fst (validateToken reliable 1001 2001 ''tt''
          (tbl (snd (createToken reliable utc_zone 1000 2000 ''tt'' bea None [row_a]))))
       = Inr (Some bea)"
    by blast
  with ok live photo show ?thesis by simp
qed

text \<open>
  The claim as it was stated, that the snapshot equals the issued identity for every
  identity, is false for the user \<open>ann\<close>, whose photo is the empty string.
\<close>

theorem createToken_validateToken_counterexample:
  "fst (createToken reliable utc_zone 1000 2000 ''tt'' ann None []) = Inr ''tt''
   \<and> fst (validateToken reliable 1001 2001 ''tt''
          (tbl (snd (createToken reliable utc_zone 1000 2000 ''tt'' ann None []))))
       = Inr (Some (ann\<lparr>user_photo := None\<rparr>))
   \<and> fst (validateToken reliable 1001 2001 ''tt''
          (tbl (snd (createToken reliable utc_zone 1000 2000 ''tt'' ann None []))))
       \<noteq> Inr (Some ann)"
proof -
  have acc: "accepted reliable ''tt'' ann []"
    by (simp add: accepted_def reliable_def others_def ann_def)
  have tb: "createToken reliable utc_zone 1000 2000 ''tt'' ann None []
     = (Inr ''tt'', \<lparr>tbl = [new_row utc_zone 1000 2000 ''tt'' ann None ''a@x.org''], undo = None,
          issued = [GetConnection, BeginTransaction, DeleteForUser, InsertToken, Commit]\<rparr>)"
    by (simp add: createToken_accepted [OF acc] others_def) (simp add: ann_def)
  have v: "fst (validateToken reliable 1001 2001 ''tt''
              [new_row utc_zone 1000 2000 ''tt'' ann None ''a@x.org''])
            = Inr (Some (ann\<lparr>user_photo := None\<rparr>))"
    by (simp add: validateToken_def storage_defs sql_select_token_def sql_update_lastUsed_def
        reliable_def new_row_def ann_def or_null_def setDate_def LocalTime_def UTC_def
        utc_zone_def MakeDate_def Day_def TimeWithinDay_def msPerDay_def)
  have ne: "ann\<lparr>user_photo := None\<rparr> \<noteq> ann" by (simp add: ann_def)
  show ?thesis by (simp add: tb v ne)
qed

text \<open>
  Claim C2. Let \<^verbatim>\<open>createToken\<close> succeed for a user with token \<open>t1\<close>, and then succeed
  again, on the table the first call left, for a user with the same \<^verbatim>\<open>id\<close> and \<^verbatim>\<open>provider\<close>
  and a different token \<open>t2\<close>. Then no row carries \<open>t1\<close> any more and \<^verbatim>\<open>validateToken\<close> of
  \<open>t1\<close> returns \<^verbatim>\<open>null\<close>; the identity has exactly one row, the one with \<open>t2\<close>; and if the
  table had at most one row per identity before, it has so after each of the two calls.
\<close>

theorem second_issue_replaces_first:
  assumes "fst (createToken f1 z1 now1 dbnow1 t1 u days1 db) = Inr t1"
    and "db1 = tbl (snd (createToken f1 z1 now1 dbnow1 t1 u days1 db))"
    and "user_id u' = user_id u" "user_provider u' = user_provider u"
    and "fst (createToken f2 z2 now2 dbnow2 t2 u' days2 db1) = Inr t2"
    and "db2 = tbl (snd (createToken f2 z2 now2 dbnow2 t2 u' days2 db1))"
    and "t2 \<noteq> t1"
    and "\<not> g GetConnection" "\<not> g SelectToken"
  shows "fst (validateToken g now dbnow t1 db2) = Inr None
         \<and> t1 \<notin> set (map token db2)
         \<and> map token (filter (owned_by u) db2) = [t2]
         \<and> (one_per_identity db \<longrightarrow> one_per_identity db1 \<and> one_per_identity db2)"
proof -
  from createToken_Inr_accepted [OF assms(1)] have acc1: "accepted f1 t1 u db" by simp
  from createToken_Inr_accepted [OF assms(5)] have acc2: "accepted f2 t2 u' db1" by simp
  let ?new1 = "new_row z1 now1 dbnow1 t1 u days1 (the (user_email u))"
  let ?new2 = "new_row z2 now2 dbnow2 t2 u' days2 (the (user_email u'))"
  have same: "owned_by u' = owned_by u" by (rule owned_by_cong [OF assms(3,4)])
  then have oth: "others u' = others u" by (simp add: others_def fun_eq_iff)
  have db1: "db1 = others u db @ [?new1]"
    by (simp add: assms(2) createToken_accepted [OF acc1])
  have db2: "db2 = others u db @ [?new2]"
    by (simp add: assms(6) createToken_accepted [OF acc2] oth) (simp add: db1 others_idem)
  have no1: "\<forall>r \<in> set (others u db). token r \<noteq> t1"
    using others_no_token [OF acc1] by (simp add: filter_empty_conv)
  have tok2: "token ?new2 = t2" by (simp add: new_row_def)
  have absent: "t1 \<notin> set (map token db2)"
    using no1 assms(7) by (auto simp: db2 tok2)
  have owned: "owned_by u ?new2"
    using owned_by_new_row [of u' z2 now2 dbnow2 t2 days2] by (simp add: same)
  have mine: "map token (filter (owned_by u) db2) = [t2]"
    by (simp add: db2 filter_owned_others owned tok2)
  have inv: "one_per_identity db \<longrightarrow> one_per_identity db1 \<and> one_per_identity db2"
    using createToken_one_per_identity [of db f1 z1 now1 dbnow1 t1 u days1]
      createToken_one_per_identity [of db1 f2 z2 now2 dbnow2 t2 u' days2]
    by (simp add: assms(2) [symmetric] assms(6) [symmetric])
  from validateToken_absent [OF assms(8,9) absent, of now dbnow] absent mine inv
  show ?thesis by simp
qed

theorem second_issue_replaces_first_witness:
  "fst (createToken reliable utc_zone 50 60 ''t1'' ann None [row_b]) = Inr ''t1''
   \<and> user_id ann2 = user_id ann \<and> user_provider ann2 = user_provider ann
   \<and> fst (createToken reliable utc_zone 1050 1060 ''t2'' ann2 None
        (tbl (snd (createToken reliable utc_zone 50 60 ''t1'' ann None [row_b])))) = Inr ''t2''
   \<and> ''t2'' \<noteq> ''t1''
   \<and> fst (validateToken reliable 1100 1100 ''t1''
        (tbl (snd (createToken reliable utc_zone 1050 1060 ''t2'' ann2 None
          (tbl (snd (createToken reliable utc_zone 50 60 ''t1'' ann None [row_b]))))))) = Inr None
   \<and> map token (tbl (snd (createToken reliable utc_zone 1050 1060 ''t2'' ann2 None
          (tbl (snd (createToken reliable utc_zone 50 60 ''t1'' ann None [row_b]))))))
       = [''bb'', ''t2'']
   \<and> one_per_identity [row_b]"
proof -
  have acc1: "accepted reliable ''t1'' ann [row_b]"
    by (simp add: accepted_def reliable_def others_def owned_by_def ann_def row_b_def)
  have oth: "others ann [row_b] = [row_b]" "others ann2 [row_b] = [row_b]"
    by (simp_all add: others_def owned_by_def ann_def ann2_def row_b_def)
  have c1: "createToken reliable utc_zone 50 60 ''t1'' ann None [row_b]
     = (Inr ''t1'', \<lparr>tbl = [row_b, new_row utc_zone 50 60 ''t1'' ann None ''a@x.org''],
          undo = None,
          issued = [GetConnection, BeginTransaction, DeleteForUser, InsertToken, Commit]\<rparr>)"
    by (simp add: createToken_accepted [OF acc1] oth) (simp add: ann_def)
  have s1: "fst (createToken reliable utc_zone 50 60 ''t1'' ann None [row_b]) = Inr ''t1''"
    by (simp add: c1)
  have same: "user_id ann2 = user_id ann" "user_provider ann2 = user_provider ann"
    by (simp_all add: ann_def ann2_def)
  have oth2: "others ann2 [row_b, new_row utc_zone 50 60 ''t1'' ann None ''a@x.org''] = [row_b]"
    by (simp add: others_def owned_by_def ann_def ann2_def row_b_def new_row_def)
  have acc2: "accepted reliable ''t2'' ann2 [row_b, new_row utc_zone 50 60 ''t1'' ann None ''a@x.org'']"
    by (simp add: accepted_def reliable_def oth2) (simp add: ann2_def row_b_def)
  have c2: "createToken reliable utc_zone 1050 1060 ''t2'' ann2 None
              [row_b, new_row utc_zone 50 60 ''t1'' ann None ''a@x.org'']
     = (Inr ''t2'', \<lparr>tbl = [row_b, new_row utc_zone 1050 1060 ''t2'' ann2 None ''ann@y.org''],
          undo = None,
          issued = [GetConnection, BeginTransaction, DeleteForUser, InsertToken, Commit]\<rparr>)"
    by (simp add: createToken_accepted [OF acc2] oth2) (simp add: ann2_def)
  have s2: "fst (createToken reliable utc_zone 1050 1060 ''t2'' ann2 None
        (tbl (snd (createToken reliable utc_zone 50 60 ''t1'' ann None [row_b])))) = Inr ''t2''"
    by (simp add: c1 c2)
  have ne: "''t2'' \<noteq> ''t1''" by simp
  have inv: "one_per_identity [row_b]" by (simp add: one_per_identity_def)
  from second_issue_replaces_first [OF s1 refl same s2 refl ne reliable_ok [of GetConnection]
      reliable_ok [of SelectToken], of 1100 1100]
  have "fst (validateToken reliable 1100 1100 ''t1''
        (tbl (snd (createToken reliable utc_zone 1050 1060 ''t2'' ann2 None
          (tbl (snd (createToken reliable utc_zone 50 60 ''t1'' ann None [row_b]))))))) = Inr None"
    by blast
  moreover have "map token (tbl (snd (createToken reliable utc_zone 1050 1060 ''t2'' ann2 None
          (tbl (snd (createToken reliable utc_zone 50 60 ''t1'' ann None [row_b]))))))
       = [''bb'', ''t2'']"
    by (simp add: c1 c2) (simp add: row_b_def new_row_def)
  ultimately show ?thesis using s1 same s2 ne inv by simp
qed

end
